theory Spec2Isabelle
  imports Complex_Main "HOL-Library.Sublist" "HOL-Library.Multiset"
begin

section \<open>Floating-point values with NaN and infinities\<close>

text \<open>
  The analyzer computes with the float64 values of pandas and numpy. The model is exact
  arithmetic on the reals (no rounding, no overflow) extended with the three special
  values that decide how the code behaves on degenerate input: NaN (also pandas' marker of
  a missing cell) and the two infinities that a division by zero produces.
  Every divisor that can be zero in \<^verbatim>\<open>csv_analyzer.py\<close> is a standard deviation, that
  is the positive zero, so the sign of a quotient by zero is the sign of its numerator.
  The cells of a table are finite numbers or missing; rounding, overflow and underflow of
  float64 are outside the model.
\<close>

datatype fl = Fin real | PosInf | NegInf | NaN

fun fl_neg :: "fl \<Rightarrow> fl" where
  "fl_neg (Fin a) = Fin (- a)"
| "fl_neg PosInf = NegInf"
| "fl_neg NegInf = PosInf"
| "fl_neg NaN = NaN"

fun fl_add :: "fl \<Rightarrow> fl \<Rightarrow> fl" where
  "fl_add (Fin a) (Fin b) = Fin (a + b)"
| "fl_add NaN _ = NaN"
| "fl_add _ NaN = NaN"
| "fl_add PosInf NegInf = NaN"
| "fl_add NegInf PosInf = NaN"
| "fl_add PosInf _ = PosInf"
| "fl_add NegInf _ = NegInf"
| "fl_add (Fin a) PosInf = PosInf"
| "fl_add (Fin a) NegInf = NegInf"

definition fl_sub :: "fl \<Rightarrow> fl \<Rightarrow> fl" where
  "fl_sub a b = fl_add a (fl_neg b)"

fun fl_mul :: "fl \<Rightarrow> fl \<Rightarrow> fl" where
  "fl_mul (Fin a) (Fin b) = Fin (a * b)"
| "fl_mul NaN _ = NaN"
| "fl_mul _ NaN = NaN"
| "fl_mul (Fin a) PosInf = (if a = 0 then NaN else if 0 < a then PosInf else NegInf)"
| "fl_mul (Fin a) NegInf = (if a = 0 then NaN else if 0 < a then NegInf else PosInf)"
| "fl_mul PosInf (Fin b) = (if b = 0 then NaN else if 0 < b then PosInf else NegInf)"
| "fl_mul NegInf (Fin b) = (if b = 0 then NaN else if 0 < b then NegInf else PosInf)"
| "fl_mul PosInf PosInf = PosInf"
| "fl_mul NegInf NegInf = PosInf"
| "fl_mul PosInf NegInf = NegInf"
| "fl_mul NegInf PosInf = NegInf"

fun fl_div :: "fl \<Rightarrow> fl \<Rightarrow> fl" where
  "fl_div (Fin a) (Fin b) =
     (if b \<noteq> 0 then Fin (a / b)
      else if a = 0 then NaN else if 0 < a then PosInf else NegInf)"
| "fl_div NaN _ = NaN"
| "fl_div _ NaN = NaN"
| "fl_div (Fin a) PosInf = Fin 0"
| "fl_div (Fin a) NegInf = Fin 0"
| "fl_div PosInf (Fin b) = (if 0 \<le> b then PosInf else NegInf)"
| "fl_div NegInf (Fin b) = (if 0 \<le> b then NegInf else PosInf)"
| "fl_div PosInf PosInf = NaN"
| "fl_div PosInf NegInf = NaN"
| "fl_div NegInf PosInf = NaN"
| "fl_div NegInf NegInf = NaN"

fun fl_abs :: "fl \<Rightarrow> fl" where
  "fl_abs (Fin a) = Fin \<bar>a\<bar>"
| "fl_abs PosInf = PosInf"
| "fl_abs NegInf = PosInf"
| "fl_abs NaN = NaN"

text \<open>Comparisons: every comparison with NaN is false.\<close>

fun fl_lt :: "fl \<Rightarrow> fl \<Rightarrow> bool" where
  "fl_lt (Fin a) (Fin b) = (a < b)"
| "fl_lt NaN _ = False"
| "fl_lt _ NaN = False"
| "fl_lt NegInf NegInf = False"
| "fl_lt NegInf _ = True"
| "fl_lt PosInf _ = False"
| "fl_lt (Fin a) PosInf = True"
| "fl_lt (Fin a) NegInf = False"

definition fl_gt :: "fl \<Rightarrow> fl \<Rightarrow> bool" where
  "fl_gt a b = fl_lt b a"

definition fl_ge :: "fl \<Rightarrow> fl \<Rightarrow> bool" where
  "fl_ge a b = (fl_lt b a \<or> (a = b \<and> a \<noteq> NaN))"

section \<open>Series statistics of pandas\<close>

text \<open>
  A numeric cell is \<open>Some x\<close> or missing (\<open>None\<close>, pandas' NaN). \<open>dropna\<close>,
  \<open>mean\<close>, \<open>std\<close> (sample standard deviation, \<open>ddof = 1\<close>), \<open>quantile\<close>
  (linear interpolation), and \<open>max\<close>/\<open>min\<close> with \<open>skipna = True\<close> are the
  library functions the analyzer calls, in exact arithmetic.
\<close>

type_synonym cell = "real option"

definition dropna :: "cell list \<Rightarrow> real list" where
  "dropna cs = [x. Some x \<leftarrow> cs]"

definition rmean :: "real list \<Rightarrow> real" where
  "rmean xs = sum_list xs / real (length xs)"

definition ssqdm :: "real list \<Rightarrow> real" where
  \<comment> \<open>sum of squared deviations from the mean\<close>
  "ssqdm xs = (\<Sum>x\<leftarrow>xs. (x - rmean xs) * (x - rmean xs))"

definition mean :: "real list \<Rightarrow> fl" where
  "mean xs = (if xs = [] then NaN else Fin (rmean xs))"

definition std :: "real list \<Rightarrow> fl" where
  "std xs = (if length xs < 2 then NaN
             else Fin (sqrt (ssqdm xs / (real (length xs) - 1))))"

definition rquantile :: "real list \<Rightarrow> real \<Rightarrow> real" where
  \<comment> \<open>position \<open>(n - 1) * q\<close> in the sorted values, interpolated between its neighbours\<close>
  "rquantile xs q =
     (let s = sort xs;
          h = (real (length xs) - 1) * q;
          lo = nat \<lfloor>h\<rfloor>;
          hi = nat \<lceil>h\<rceil>
      in s ! lo + (h - real lo) * (s ! hi - s ! lo))"

definition quantile :: "real list \<Rightarrow> real \<Rightarrow> fl" where
  "quantile xs q = (if xs = [] then NaN else Fin (rquantile xs q))"

definition finite_vals :: "fl list \<Rightarrow> real list" where
  "finite_vals fs = [r. Fin r \<leftarrow> fs]"

definition series_max :: "fl list \<Rightarrow> fl" where
  "series_max fs =
     (if PosInf \<in> set fs then PosInf
      else if finite_vals fs \<noteq> [] then Fin (Max (set (finite_vals fs)))
      else if NegInf \<in> set fs then NegInf else NaN)"

definition series_min :: "fl list \<Rightarrow> fl" where
  "series_min fs =
     (if NegInf \<in> set fs then NegInf
      else if finite_vals fs \<noteq> [] then Fin (Min (set (finite_vals fs)))
      else if PosInf \<in> set fs then PosInf else NaN)"

section \<open>The loaded table\<close>

text \<open>
  \<^verbatim>\<open>load_data\<close> reads the file into a DataFrame and classifies its columns by dtype:
  numeric, \<^verbatim>\<open>object\<close> (text, the categorical columns), or neither (for instance
  bool). \<^verbatim>\<open>read_csv\<close> makes the column labels unique, so a label stands for its
  column; the model keeps each column's cells next to its label, in file order.
\<close>

datatype column = Numeric "cell list" | Object "string option list" | OtherDtype

type_synonym dataframe = "(string \<times> column) list"

definition numeric_columns :: "dataframe \<Rightarrow> (string \<times> cell list) list" where
  "numeric_columns df = [(n, cs). (n, Numeric cs) \<leftarrow> df]"

definition categorical_columns :: "dataframe \<Rightarrow> (string \<times> string option list) list" where
  "categorical_columns df = [(n, ls). (n, Object ls) \<leftarrow> df]"

section \<open>get_outliers\<close>

text \<open>
  The only \<^verbatim>\<open>raise\<close> of \<^verbatim>\<open>get_outliers\<close> is the \<^verbatim>\<open>ValueError\<close> for a column
  that is not among the numeric ones; numpy's division by zero gives an infinity or NaN and
  does not raise. The returned Series is modelled by its values, in row order.
\<close>

datatype error = InvalidColumn

definition iqr_outliers :: "real list \<Rightarrow> real list" where
  "iqr_outliers data_col =
     (let Q1 = quantile data_col 0.25;
          Q3 = quantile data_col 0.75;
          IQR = fl_sub Q3 Q1;
          lower_bound = fl_sub Q1 (fl_mul (Fin 1.5) IQR);
          upper_bound = fl_add Q3 (fl_mul (Fin 1.5) IQR)
      in [x \<leftarrow> data_col. fl_lt (Fin x) lower_bound \<or> fl_gt (Fin x) upper_bound])"

definition z_score :: "real list \<Rightarrow> real \<Rightarrow> fl" where
  "z_score data_col x = fl_abs (fl_div (fl_sub (Fin x) (mean data_col)) (std data_col))"

definition zscore_outliers :: "real list \<Rightarrow> real list" where
  "zscore_outliers data_col = [x \<leftarrow> data_col. fl_gt (z_score data_col x) (Fin 3)]"

definition get_outliers :: "dataframe \<Rightarrow> string \<Rightarrow> string \<Rightarrow> error + real list" where
  "get_outliers df column method =
     (case map_of (numeric_columns df) column of
        None \<Rightarrow> Inl InvalidColumn
      | Some cs \<Rightarrow>
          (let data_col = dropna cs
           in if method = ''iqr'' then Inr (iqr_outliers data_col)
              else if method = ''zscore'' then Inr (zscore_outliers data_col)
              else Inr []))"

section \<open>find_connections\<close>

text \<open>
  \<^verbatim>\<open>DataFrame.corr()\<close> is the Pearson coefficient of two columns over the rows where
  both cells are present. Its entry is NaN when there is no such row (fewer than
  \<^verbatim>\<open>min_periods = 1\<close>) or when the divisor \<open>sqrt (ssqdm x * ssqdm y)\<close> is zero.
  \<open>corr cs ds\<close> is the entry \<^verbatim>\<open>corr_matrix.loc[col1, col2]\<close> of two columns.
\<close>

definition joint_rows :: "cell list \<Rightarrow> cell list \<Rightarrow> (real \<times> real) list" where
  "joint_rows cs ds = [(x, y). (Some x, Some y) \<leftarrow> zip cs ds]"

definition covxy :: "real list \<Rightarrow> real list \<Rightarrow> real" where
  "covxy xs ys = (\<Sum>(x, y)\<leftarrow>zip xs ys. (x - rmean xs) * (y - rmean ys))"

definition corr :: "cell list \<Rightarrow> cell list \<Rightarrow> fl" where
  "corr cs ds =
     (let rows = joint_rows cs ds;
          vx = map fst rows;
          vy = map snd rows
      in if length rows < 1 then NaN
         else (let divisor = sqrt (ssqdm vx * ssqdm vy)
               in if divisor \<noteq> 0 then Fin (covxy vx vy / divisor) else NaN))"

datatype direction = Positive | Negative

record group_stats =
  grp_mean :: fl
  grp_std :: fl
  grp_count :: nat

text \<open>
  The two kinds of dictionaries that \<^verbatim>\<open>find_connections\<close> appends. \<open>details\<close> is
  \<^verbatim>\<open>grouped.to_dict()\<close>, read per category label.
\<close>

datatype connection =
    Correlation (column1: string) (column2: string) (strength: fl)
      (direction: direction) (corr_value: fl)
  | CategoricalInfluence (categorical_column: string) (numeric_column: string)
      (strength: fl) (details: "string \<rightharpoonup> group_stats")

text \<open>
  The two nested loops over \<^verbatim>\<open>enumerate(self.numeric_columns)\<close> and
  \<^verbatim>\<open>enumerate(self.numeric_columns[i+1:], i+1)\<close>.
\<close>

fun pairs :: "'a list \<Rightarrow> ('a \<times> 'a) list" where
  "pairs [] = []"
| "pairs (x # xs) = map (Pair x) xs @ pairs xs"

definition correlation_entry :: "string \<times> cell list \<Rightarrow> string \<times> cell list \<Rightarrow> connection list" where
  "correlation_entry c1 c2 =
     (let correlation = corr (snd c1) (snd c2)
      in if fl_gt (fl_abs correlation) (Fin 0.3)
         then [Correlation (fst c1) (fst c2) (fl_abs correlation)
                 (if fl_gt correlation (Fin 0) then Positive else Negative) correlation]
         else [])"

definition correlations :: "dataframe \<Rightarrow> connection list" where
  "correlations df =
     (if length (numeric_columns df) > 1
      then concat (map (\<lambda>(c1, c2). correlation_entry c1 c2) (pairs (numeric_columns df)))
      else [])"

text \<open>
  \<^verbatim>\<open>groupby(cat_col)[num_col].agg(['mean', 'std', 'count'])\<close>: one row per label that
  occurs in the categorical column (rows with a missing label are dropped), holding the
  statistics of the present numeric cells of that label's rows. pandas orders the rows by
  label; the order plays no part in \<open>len\<close>, \<open>max\<close>, \<open>min\<close> or the dictionary, and the
  model keeps the order of first occurrence.
\<close>

definition group_labels :: "string option list \<Rightarrow> string list" where
  "group_labels ls = remdups [l. Some l \<leftarrow> ls]"

definition group_values :: "string option list \<Rightarrow> cell list \<Rightarrow> string \<Rightarrow> real list" where
  "group_values ls cs l = [x. (Some k, Some x) \<leftarrow> zip ls cs, k = l]"

definition grouped :: "string option list \<Rightarrow> cell list \<Rightarrow> (string \<times> group_stats) list" where
  "grouped ls cs =
     [(l, \<lparr>grp_mean = mean (group_values ls cs l),
            grp_std = std (group_values ls cs l),
            grp_count = length (group_values ls cs l)\<rparr>). l \<leftarrow> group_labels ls]"

definition variance_ratio :: "(string \<times> group_stats) list \<Rightarrow> fl" where
  "variance_ratio g =
     fl_div (series_max (map (grp_std \<circ> snd) g))
            (fl_add (series_min (map (grp_std \<circ> snd) g)) (Fin (1 / 10 ^ 10)))"

definition py_min :: "fl \<Rightarrow> fl \<Rightarrow> fl" where
  \<comment> \<open>the builtin \<^verbatim>\<open>min(a, b)\<close>: \<open>b\<close> only when \<open>b < a\<close>\<close>
  "py_min a b = (if fl_lt b a then b else a)"

definition categorical_entry ::
  "string \<times> string option list \<Rightarrow> string \<times> cell list \<Rightarrow> connection list" where
  "categorical_entry cat num =
     (let g = grouped (snd cat) (snd num)
      in if length g > 1
         then (if fl_gt (variance_ratio g) (Fin 2)
               then [CategoricalInfluence (fst cat) (fst num)
                       (py_min (fl_div (variance_ratio g) (Fin 10)) (Fin 1.0)) (map_of g)]
               else [])
         else [])"

definition categorical_influences :: "dataframe \<Rightarrow> connection list" where
  "categorical_influences df =
     concat (map (\<lambda>cat. concat (map (\<lambda>num. categorical_entry cat num) (numeric_columns df)))
                 (categorical_columns df))"

text \<open>
  \<^verbatim>\<open>sorted(connections, key=lambda x: x['strength'], reverse=True)\<close>: a stable sort
  into descending order of the key, comparing keys with \<open><\<close> on floats.
\<close>

fun insort_desc :: "connection \<Rightarrow> connection list \<Rightarrow> connection list" where
  "insort_desc x [] = [x]"
| "insort_desc x (y # ys) =
     (if fl_lt (strength x) (strength y) then y # insort_desc x ys else x # y # ys)"

definition sorted_desc :: "connection list \<Rightarrow> connection list" where
  "sorted_desc cs = foldr insort_desc cs []"

definition connections :: "dataframe \<Rightarrow> connection list" where
  \<comment> \<open>the list \<^verbatim>\<open>connections\<close> when the loops are done, in order of discovery\<close>
  "connections df = correlations df @ categorical_influences df"

definition find_connections :: "dataframe \<Rightarrow> connection list" where
  "find_connections df = sorted_desc (connections df)"

section \<open>Auxiliary notions for the statements\<close>

definition rstd :: "real list \<Rightarrow> real" where
  \<comment> \<open>the sample standard deviation of at least two values\<close>
  "rstd xs = sqrt (ssqdm xs / (real (length xs) - 1))"

definition std_groups :: "string option list \<Rightarrow> cell list \<Rightarrow> string set" where
  \<comment> \<open>the labels whose group has two or more present numeric values\<close>
  "std_groups ls cs = {l \<in> set (group_labels ls). 2 \<le> length (group_values ls cs l)}"

definition group_stds :: "string option list \<Rightarrow> cell list \<Rightarrow> fl list" where
  \<comment> \<open>the column \<^verbatim>\<open>grouped['std']\<close>\<close>
  "group_stds ls cs = map (grp_std \<circ> snd) (grouped ls cs)"

definition fin_strength :: "connection \<Rightarrow> bool" where
  "fin_strength c = (\<exists>r. strength c = Fin r)"

text \<open>Small tables used as examples.\<close>

abbreviation ex_labels :: "string option list" where
  "ex_labels \<equiv> [Some ''u'', Some ''u'', Some ''u'', Some ''v'', Some ''v'', Some ''v'']"

abbreviation ex_x :: "cell list" where
  "ex_x \<equiv> [Some 0, Some 1, Some 2, Some 0, Some 3, Some 6]"

abbreviation ex_table :: dataframe where
  "ex_table \<equiv> [(''g'', Object ex_labels), (''x'', Numeric ex_x)]"

abbreviation ex_stats :: "(string \<times> group_stats) list" where
  "ex_stats \<equiv> [(''u'', \<lparr>grp_mean = Fin 1, grp_std = Fin 1, grp_count = 3\<rparr>),
               (''v'', \<lparr>grp_mean = Fin 3, grp_std = Fin 3, grp_count = 3\<rparr>)]"

abbreviation ex_labels1 :: "string option list" where
  "ex_labels1 \<equiv> [Some ''u'', Some ''u'', Some ''u'', Some ''v'']"

abbreviation ex_x1 :: "cell list" where
  "ex_x1 \<equiv> [Some 0, Some 3, Some 6, Some 7]"

abbreviation ex_table1 :: dataframe where
  "ex_table1 \<equiv> [(''g'', Object ex_labels1), (''x'', Numeric ex_x1)]"

abbreviation ex_y :: "cell list" where
  "ex_y \<equiv> [Some 0, Some 2, Some 4, Some 0, Some 6, Some 12]"

abbreviation ex_z :: "cell list" where
  "ex_z \<equiv> [Some 1, Some 2, Some 3, Some 1, Some 4, Some 7]"

abbreviation ex_stats_y :: "(string \<times> group_stats) list" where
  "ex_stats_y \<equiv> [(''u'', \<lparr>grp_mean = Fin 2, grp_std = Fin 2, grp_count = 3\<rparr>),
                 (''v'', \<lparr>grp_mean = Fin 6, grp_std = Fin 6, grp_count = 3\<rparr>)]"

abbreviation ex_stats_z :: "(string \<times> group_stats) list" where
  "ex_stats_z \<equiv> [(''u'', \<lparr>grp_mean = Fin 2, grp_std = Fin 1, grp_count = 3\<rparr>),
                 (''v'', \<lparr>grp_mean = Fin 4, grp_std = Fin 3, grp_count = 3\<rparr>)]"

abbreviation ranked_table :: dataframe where
  "ranked_table \<equiv> [(''x'', Numeric ex_x), (''g'', Object ex_labels),
                   (''y'', Numeric ex_y), (''z'', Numeric ex_z)]"

abbreviation ex_labels3 :: "string option list" where
  "ex_labels3 \<equiv> [Some ''u'', Some ''u'', Some ''u'', Some ''v'', Some ''v'', Some ''v'',
                 Some ''w'']"

abbreviation ex_x3 :: "cell list" where
  "ex_x3 \<equiv> [Some 0, Some 1, Some 2, Some 0, Some 3, Some 6, Some 7]"

abbreviation ex_k3 :: "cell list" where
  "ex_k3 \<equiv> [Some 5, Some 5, Some 5, Some 5, Some 5, Some 5, Some 5]"

abbreviation ex_stats3 :: "(string \<times> group_stats) list" where
  "ex_stats3 \<equiv> [(''u'', \<lparr>grp_mean = Fin 1, grp_std = Fin 1, grp_count = 3\<rparr>),
                (''v'', \<lparr>grp_mean = Fin 3, grp_std = Fin 3, grp_count = 3\<rparr>),
                (''w'', \<lparr>grp_mean = Fin 7, grp_std = NaN, grp_count = 1\<rparr>)]"

abbreviation ex_table3 :: dataframe where
  "ex_table3 \<equiv> [(''g'', Object ex_labels3), (''x'', Numeric ex_x3), (''k'', Numeric ex_k3)]"

section \<open>Outlier detection: failures\<close>

lemma set_numeric_columns:
  "set (numeric_columns df) = {(n, cs). (n, Numeric cs) \<in> set df}"
  by (induction df) (auto simp: numeric_columns_def split: column.splits)

lemma lookup_numeric_None:
  "map_of (numeric_columns df) c = None \<longleftrightarrow> (\<forall>cs. (c, Numeric cs) \<notin> set df)"
  by (force simp: map_of_eq_None_iff set_numeric_columns)

lemma subseq_iqr: "subseq (iqr_outliers xs) xs"
  by (simp add: iqr_outliers_def Let_def)

lemma subseq_zscore: "subseq (zscore_outliers xs) xs"
  by (simp add: zscore_outliers_def)

text \<open>
  Claim C6. \<^verbatim>\<open>get_outliers\<close> fails with the invalid-column error exactly when the table
  has no numeric column of the requested name; in particular when no column has that name
  at all. For a numeric column it returns, whatever the method, a sub-sequence of the
  column's present values; the function has no other failure.
\<close>

theorem get_outliers_failure:
  "(get_outliers df column method = Inl InvalidColumn \<longleftrightarrow> (\<forall>cs. (column, Numeric cs) \<notin> set df))
   \<and> (column \<notin> fst ` set df \<longrightarrow> get_outliers df column method = Inl InvalidColumn)
   \<and> ((\<exists>cs. (column, Numeric cs) \<in> set df) \<longrightarrow>
        (\<exists>cs ys. (column, Numeric cs) \<in> set df \<and> get_outliers df column method = Inr ys
                  \<and> subseq ys (dropna cs)))"
proof (cases "map_of (numeric_columns df) column")
  case None
  then have no: "\<forall>cs. (column, Numeric cs) \<notin> set df" by (simp add: lookup_numeric_None)
  from None have "get_outliers df column method = Inl InvalidColumn"
    by (simp add: get_outliers_def)
  with no show ?thesis by simp
next
  case (Some ds)
  then have mem: "(column, Numeric ds) \<in> set df"
    using map_of_SomeD [of "numeric_columns df" column ds] by (simp add: set_numeric_columns)
  then have ex: "column \<in> fst ` set df" by force
  have "\<exists>ys. get_outliers df column method = Inr ys \<and> subseq ys (dropna ds)"
    using Some by (simp add: get_outliers_def Let_def subseq_iqr subseq_zscore)
  with mem ex show ?thesis by auto
qed

theorem get_outliers_failure_witness:
  "get_outliers [(''n'', Numeric [Some 1, None]), (''c'', Object [Some ''u'', Some ''v''])]
     ''c'' ''iqr'' = Inl InvalidColumn
   \<and> get_outliers [(''n'', Numeric [Some 1, None]), (''c'', Object [Some ''u'', Some ''v''])]
     ''missing'' ''zscore'' = Inl InvalidColumn
   \<and> (\<exists>ys. get_outliers [(''n'', Numeric [Some 1, None]), (''c'', Object [Some ''u'', Some ''v''])]
     ''n'' ''iqr'' = Inr ys \<and> subseq ys [1])"
  using get_outliers_failure
    [of "[(''n'', Numeric [Some 1, None]), (''c'', Object [Some ''u'', Some ''v''])]" "''c''" "''iqr''"]
    get_outliers_failure
    [of "[(''n'', Numeric [Some 1, None]), (''c'', Object [Some ''u'', Some ''v''])]" "''missing''" "''zscore''"]
    get_outliers_failure
    [of "[(''n'', Numeric [Some 1, None]), (''c'', Object [Some ''u'', Some ''v''])]" "''n''" "''iqr''"]
  by (auto simp: dropna_def)

text \<open>
  Claim C9. For a numeric column, a method other than \<^verbatim>\<open>iqr\<close> and \<^verbatim>\<open>zscore\<close>
  yields the empty series, not a failure.
\<close>

theorem get_outliers_unknown_method:
  assumes "(column, Numeric cs) \<in> set df" and "method \<noteq> ''iqr''" and "method \<noteq> ''zscore''"
  shows "get_outliers df column method = Inr []"
proof -
  from assms(1) have "map_of (numeric_columns df) column \<noteq> None"
    by (auto simp: lookup_numeric_None)
  then obtain ds where "map_of (numeric_columns df) column = Some ds" by blast
  with assms(2,3) show ?thesis by (simp add: get_outliers_def)
qed

theorem get_outliers_unknown_method_witness:
  "get_outliers [(''a'', Numeric [Some 1, None, Some 100])] ''a'' ''mad'' = Inr []"
  using get_outliers_unknown_method
    [of "''a''" "[Some 1, None, Some 100]" "[(''a'', Numeric [Some 1, None, Some 100])]" "''mad''"]
  by simp



section \<open>Outlier detection: the two methods\<close>







lemma ssqdm_nonneg: "0 \<le> ssqdm xs"
  unfolding ssqdm_def by (rule sum_list_nonneg) auto











section \<open>Ranking\<close>

lemma fl_lt_irrefl: "\<not> fl_lt a a"
  by (cases a) simp_all

lemma filter_insort_desc:
  "filter (\<lambda>c. strength c = k) (insort_desc x ys) = filter (\<lambda>c. strength c = k) (x # ys)"
proof (induction ys)
  case Nil
  then show ?case by simp
next
  case (Cons y ys)
  show ?case
  proof (cases "fl_lt (strength x) (strength y)")
    case True
    then have "strength x \<noteq> strength y" using fl_lt_irrefl by auto
    with True Cons show ?thesis by auto
  next
    case False
    then show ?thesis by simp
  qed
qed

lemma filter_sorted_desc:
  "filter (\<lambda>c. strength c = k) (sorted_desc cs) = filter (\<lambda>c. strength c = k) cs"
  by (induction cs) (simp_all add: sorted_desc_def filter_insort_desc)

lemma mset_insort_desc: "mset (insort_desc x ys) = add_mset x (mset ys)"
  by (induction ys) simp_all

lemma mset_sorted_desc: "mset (sorted_desc cs) = mset cs"
  by (induction cs) (simp_all add: sorted_desc_def mset_insort_desc)

lemma set_sorted_desc: "set (sorted_desc cs) = set cs"
  using mset_sorted_desc [of cs] by (metis set_mset_mset)

lemma fl_ge_Fin: "fl_ge (Fin a) (Fin b) = (b \<le> a)"
  by (auto simp: fl_ge_def)

lemma sorted_insort_desc:
  assumes "sorted_wrt (\<lambda>c1 c2. fl_ge (strength c1) (strength c2)) ys"
    and "fin_strength x" and "\<forall>y\<in>set ys. fin_strength y"
  shows "sorted_wrt (\<lambda>c1 c2. fl_ge (strength c1) (strength c2)) (insort_desc x ys)"
  using assms
proof (induction ys)
  case Nil
  then show ?case by simp
next
  case (Cons y ys)
  from Cons.prems obtain a b where a: "strength x = Fin a" and b: "strength y = Fin b"
    by (auto simp: fin_strength_def)
  show ?case
  proof (cases "a < b")
    case True
    have "set (insort_desc x ys) = insert x (set ys)"
      using mset_insort_desc [of x ys] by (metis set_mset_mset set_mset_add_mset_insert)
    with True a b Cons show ?thesis by (auto simp: fl_ge_Fin)
  next
    case False
    have "fl_ge (strength x) (strength z)" if "z \<in> set ys" for z
    proof -
      from that Cons.prems obtain c where c: "strength z = Fin c"
        by (auto simp: fin_strength_def)
      from that Cons.prems(1) have "fl_ge (strength y) (strength z)" by simp
      with False a b c show ?thesis by (simp add: fl_ge_Fin)
    qed
    with False a b Cons.prems(1) show ?thesis by (auto simp: fl_ge_Fin)
  qed
qed

lemma sorted_sorted_desc:
  "\<forall>c\<in>set cs. fin_strength c \<Longrightarrow>
   sorted_wrt (\<lambda>c1 c2. fl_ge (strength c1) (strength c2)) (sorted_desc cs)"
proof (induction cs)
  case Nil
  then show ?case by (simp add: sorted_desc_def)
next
  case (Cons c cs)
  then have "sorted_wrt (\<lambda>c1 c2. fl_ge (strength c1) (strength c2)) (sorted_desc cs)" by simp
  moreover have "\<forall>y\<in>set (sorted_desc cs). fin_strength y"
    using Cons.prems by (simp add: set_sorted_desc)
  ultimately have "sorted_wrt (\<lambda>c1 c2. fl_ge (strength c1) (strength c2))
      (insort_desc c (sorted_desc cs))"
    using Cons.prems by (intro sorted_insort_desc) simp_all
  then show ?case by (simp add: sorted_desc_def)
qed

section \<open>Group standard deviations and the variance ratio\<close>

lemma rstd_nonneg: "2 \<le> length xs \<Longrightarrow> 0 \<le> rstd xs"
  by (simp add: rstd_def ssqdm_nonneg)

lemma std_rstd: "std xs = (if length xs < 2 then NaN else Fin (rstd xs))"
  by (simp add: std_def rstd_def)

lemma group_stds_eq:
  "group_stds ls cs = map (\<lambda>l. std (group_values ls cs l)) (group_labels ls)"
  by (simp add: group_stds_def grouped_def comp_def)

lemma set_finite_vals: "set (finite_vals fs) = {r. Fin r \<in> set fs}"
  by (induction fs) (auto simp: finite_vals_def split: fl.splits)

lemma finite_group_stds:
  "set (finite_vals (group_stds ls cs)) = (\<lambda>l. rstd (group_values ls cs l)) ` std_groups ls cs"
  by (auto simp: set_finite_vals group_stds_eq std_rstd std_groups_def split: if_splits)

lemma group_stds_no_inf:
  "PosInf \<notin> set (group_stds ls cs)" "NegInf \<notin> set (group_stds ls cs)"
  by (auto simp: group_stds_eq std_rstd split: if_splits)

lemma finite_std_groups: "finite (std_groups ls cs)"
  by (simp add: std_groups_def)

lemma variance_ratio_eq:
  "variance_ratio (grouped ls cs) =
     (if std_groups ls cs = {} then NaN
      else Fin (Max ((\<lambda>l. rstd (group_values ls cs l)) ` std_groups ls cs)
                / (Min ((\<lambda>l. rstd (group_values ls cs l)) ` std_groups ls cs) + 1 / 10 ^ 10)))"
proof (cases "std_groups ls cs = {}")
  case True
  then have "finite_vals (group_stds ls cs) = []"
    using finite_group_stds [of ls cs] by simp
  then show ?thesis
    using True group_stds_no_inf [of ls cs]
    by (simp add: variance_ratio_def series_max_def series_min_def group_stds_def [symmetric])
next
  case False
  let ?S = "(\<lambda>l. rstd (group_values ls cs l)) ` std_groups ls cs"
  have S: "set (finite_vals (group_stds ls cs)) = ?S" by (rule finite_group_stds)
  have ne: "finite_vals (group_stds ls cs) \<noteq> []" using S False by auto
  have fin: "finite ?S" and neS: "?S \<noteq> {}" using False finite_std_groups by auto
  have "Min ?S \<in> ?S" using fin neS by (rule Min_in)
  then have "0 \<le> Min ?S" by (auto simp: std_groups_def rstd_nonneg)
  then have "Min ?S + 1 / 10 ^ 10 \<noteq> 0" by (smt (verit) divide_pos_pos zero_less_power)
  then show ?thesis
    using False ne S group_stds_no_inf [of ls cs]
    by (simp add: variance_ratio_def series_max_def series_min_def group_stds_def [symmetric])
qed


lemma ratio_single_group:
  assumes "std_groups ls cs = {l}"
  shows "\<exists>r. variance_ratio (grouped ls cs) = Fin r \<and> r \<le> 1"
proof -
  have "l \<in> std_groups ls cs" using assms by simp
  then have "0 \<le> rstd (group_values ls cs l)" by (simp add: std_groups_def rstd_nonneg)
  then have "rstd (group_values ls cs l) / (rstd (group_values ls cs l) + 1 / 10 ^ 10) \<le> 1"
    by (simp add: divide_le_eq)
  then show ?thesis using assms by (simp add: variance_ratio_eq)
qed

lemma ratio_few_groups:
  assumes "card (std_groups ls cs) \<le> 1"
  shows "variance_ratio (grouped ls cs) = NaN
       \<or> (\<exists>r. variance_ratio (grouped ls cs) = Fin r \<and> r \<le> 1)"
proof (cases "std_groups ls cs = {}")
  case True
  then show ?thesis by (simp add: variance_ratio_eq)
next
  case False
  then have "card (std_groups ls cs) \<noteq> 0" using finite_std_groups by auto
  with assms have "card (std_groups ls cs) = 1" by linarith
  then obtain l where "std_groups ls cs = {l}" by (rule card_1_singletonE)
  then show ?thesis using ratio_single_group by blast
qed

lemma ratio_gt2_two_groups:
  assumes "variance_ratio (grouped ls cs) = Fin r" and "2 < r"
  shows "2 \<le> card (std_groups ls cs)"
proof (rule ccontr)
  assume "\<not> 2 \<le> card (std_groups ls cs)"
  then have "card (std_groups ls cs) \<le> 1" by simp
  from ratio_few_groups [OF this] assms show False by auto
qed

lemma ratio_not_inf:
  "variance_ratio (grouped ls cs) \<noteq> PosInf" "variance_ratio (grouped ls cs) \<noteq> NegInf"
  by (simp_all add: variance_ratio_eq)

lemma length_grouped: "length (grouped ls cs) = length (group_labels ls)"
  by (simp add: grouped_def)

lemma card_std_groups_le: "card (std_groups ls cs) \<le> length (grouped ls cs)"
proof -
  have "card (std_groups ls cs) \<le> card (set (group_labels ls))"
    by (rule card_mono) (auto simp: std_groups_def)
  also have "\<dots> \<le> length (group_labels ls)" by (rule card_length)
  finally show ?thesis by (simp add: length_grouped)
qed

lemma py_min_Fin: "py_min (Fin a) (Fin b) = Fin (min a b)"
  by (auto simp: py_min_def min_def)

lemma categorical_entry_eq:
  "categorical_entry (a, ls) (b, cs) =
     (case variance_ratio (grouped ls cs) of
        Fin r \<Rightarrow> if 2 < r
                  then [CategoricalInfluence a b (Fin (min (r / 10) 1)) (map_of (grouped ls cs))]
                  else []
      | _ \<Rightarrow> [])"
proof (cases "variance_ratio (grouped ls cs)")
  case (Fin r)
  show ?thesis
  proof (cases "2 < r")
    case True
    from ratio_gt2_two_groups [OF Fin True] card_std_groups_le [of ls cs]
    have "1 < length (grouped ls cs)" by linarith
    with Fin True show ?thesis
      by (simp add: categorical_entry_def Let_def fl_gt_def py_min_Fin)
  next
    case False
    with Fin show ?thesis by (simp add: categorical_entry_def Let_def fl_gt_def)
  qed
next
  case PosInf
  then show ?thesis using ratio_not_inf by blast
next
  case NegInf
  then show ?thesis using ratio_not_inf by blast
next
  case NaN
  then show ?thesis by (simp add: categorical_entry_def Let_def fl_gt_def)
qed

section \<open>Pairs of numeric columns\<close>

lemma corr_cases: "corr cs ds = NaN \<or> (\<exists>r. corr cs ds = Fin r)"
  by (simp add: corr_def Let_def)

lemma correlation_entry_eq:
  "correlation_entry (a, cs) (b, ds) =
     (case corr cs ds of
        Fin r \<Rightarrow> if 0.3 < \<bar>r\<bar>
                  then [Correlation a b (Fin \<bar>r\<bar>) (if 0 < r then Positive else Negative) (Fin r)]
                  else []
      | _ \<Rightarrow> [])"
  using corr_cases [of cs ds]
  by (auto simp: correlation_entry_def Let_def fl_gt_def)

lemma corr_zero_variance:
  assumes "ssqdm (map fst (joint_rows cs ds)) = 0 \<or> ssqdm (map snd (joint_rows cs ds)) = 0"
  shows "corr cs ds = NaN"
  using assms by (auto simp: corr_def Let_def)

lemma joint_rows_Cons:
  "joint_rows (c # cs) (d # ds) =
     (case (c, d) of (Some x, Some y) \<Rightarrow> [(x, y)] | _ \<Rightarrow> []) @ joint_rows cs ds"
  by (simp add: joint_rows_def split: option.splits)

lemma joint_rows_Nil: "joint_rows [] ds = []" "joint_rows cs [] = []"
  by (simp_all add: joint_rows_def)

lemma joint_rows_swap: "joint_rows ds cs = map (\<lambda>(x, y). (y, x)) (joint_rows cs ds)"
proof (induction cs arbitrary: ds)
  case Nil
  then show ?case by (simp add: joint_rows_Nil)
next
  case (Cons c cs)
  show ?case
  proof (cases ds)
    case Nil
    then show ?thesis by (simp add: joint_rows_Nil)
  next
    case (Cons d ds')
    then show ?thesis
      using Cons.IH [of ds'] by (simp add: joint_rows_Cons split: option.splits)
  qed
qed

lemma joint_rows_swap_fst: "map fst (joint_rows ds cs) = map snd (joint_rows cs ds)"
  by (simp add: joint_rows_swap [of ds cs] comp_def split_def)

lemma joint_rows_swap_snd: "map snd (joint_rows ds cs) = map fst (joint_rows cs ds)"
  by (simp add: joint_rows_swap [of ds cs] comp_def split_def)

lemma joint_rows_fst_subset: "set (map fst (joint_rows cs ds)) \<subseteq> set (dropna cs)"
proof (induction cs arbitrary: ds)
  case Nil
  then show ?case by (simp add: joint_rows_Nil)
next
  case (Cons c cs)
  show ?case
  proof (cases ds)
    case Nil
    then show ?thesis by (simp add: joint_rows_Nil)
  next
    case (Cons d ds')
    have "dropna (c # cs) = (case c of Some x \<Rightarrow> [x] | None \<Rightarrow> []) @ dropna cs"
      by (simp add: dropna_def split: option.splits)
    then show ?thesis
      using Cons Cons.IH [of ds'] by (auto simp: joint_rows_Cons split: option.splits)
  qed
qed

lemma constant_ssqdm:
  assumes "\<forall>x\<in>set xs. x = k"
  shows "ssqdm xs = 0"
proof (cases "xs = []")
  case True
  then show ?thesis by (simp add: ssqdm_def)
next
  case False
  from assms have "xs = replicate (length xs) k"
    by (simp add: replicate_length_same)
  then have "sum_list xs = real (length xs) * k"
    by (metis sum_list_replicate of_nat_mult mult.commute mult_of_nat_commute)
  with False have "rmean xs = k" by (simp add: rmean_def)
  with assms have "\<forall>x\<in>set xs. (x - rmean xs) * (x - rmean xs) = 0" by simp
  then show ?thesis unfolding ssqdm_def by (simp add: sum_list_0 cong: map_cong)
qed



section \<open>What find_connections returns\<close>

lemma set_categorical_columns:
  "set (categorical_columns df) = {(n, ls). (n, Object ls) \<in> set df}"
  by (induction df) (auto simp: categorical_columns_def split: column.splits)

lemma in_correlations:
  "c \<in> set (correlations df) \<longleftrightarrow>
     (\<exists>c1 c2. (c1, c2) \<in> set (pairs (numeric_columns df)) \<and> c \<in> set (correlation_entry c1 c2))"
proof (cases "length (numeric_columns df) > 1")
  case True
  then have "c \<in> set (correlations df) \<longleftrightarrow>
      (\<exists>p\<in>set (pairs (numeric_columns df)). c \<in> set (correlation_entry (fst p) (snd p)))"
    by (simp add: correlations_def split_def)
  also have "\<dots> \<longleftrightarrow> (\<exists>c1 c2. (c1, c2) \<in> set (pairs (numeric_columns df))
      \<and> c \<in> set (correlation_entry c1 c2))"
    by force
  finally show ?thesis .
next
  case False
  then have "pairs (numeric_columns df) = []"
    by (cases "numeric_columns df") (auto split: list.splits)
  with False show ?thesis by (simp add: correlations_def)
qed

lemma in_categorical_influences:
  "c \<in> set (categorical_influences df) \<longleftrightarrow>
     (\<exists>cat\<in>set (categorical_columns df). \<exists>num\<in>set (numeric_columns df).
        c \<in> set (categorical_entry cat num))"
  by (auto simp: categorical_influences_def)

lemma set_find_connections:
  "set (find_connections df) = set (correlations df) \<union> set (categorical_influences df)"
  by (simp add: find_connections_def connections_def set_sorted_desc)

lemma in_correlation_entry:
  "c \<in> set (correlation_entry (a, cs) (b, ds)) \<longleftrightarrow>
     (\<exists>r. corr cs ds = Fin r \<and> 0.3 < \<bar>r\<bar>
        \<and> c = Correlation a b (Fin \<bar>r\<bar>) (if 0 < r then Positive else Negative) (Fin r))"
  by (cases "corr cs ds") (auto simp: correlation_entry_eq)

lemma in_categorical_entry:
  "c \<in> set (categorical_entry (a, ls) (b, cs)) \<longleftrightarrow>
     (\<exists>r. variance_ratio (grouped ls cs) = Fin r \<and> 2 < r
        \<and> c = CategoricalInfluence a b (Fin (min (r / 10) 1)) (map_of (grouped ls cs)))"
  by (cases "variance_ratio (grouped ls cs)") (auto simp: categorical_entry_eq)

lemma correlation_in_find_connections:
  "Correlation a b s d v \<in> set (find_connections df) \<longleftrightarrow>
     (\<exists>cs ds r. ((a, cs), (b, ds)) \<in> set (pairs (numeric_columns df))
        \<and> corr cs ds = Fin r \<and> 0.3 < \<bar>r\<bar>
        \<and> s = Fin \<bar>r\<bar> \<and> d = (if 0 < r then Positive else Negative) \<and> v = Fin r)"
proof -
  have "Correlation a b s d v \<notin> set (categorical_influences df)"
    by (auto simp: in_categorical_influences in_categorical_entry)
  then have "Correlation a b s d v \<in> set (find_connections df) \<longleftrightarrow>
      (\<exists>c1 c2. (c1, c2) \<in> set (pairs (numeric_columns df))
         \<and> Correlation a b s d v \<in> set (correlation_entry c1 c2))"
    by (simp add: set_find_connections in_correlations)
  also have "\<dots> \<longleftrightarrow> (\<exists>n1 cs n2 ds. ((n1, cs), (n2, ds)) \<in> set (pairs (numeric_columns df))
         \<and> Correlation a b s d v \<in> set (correlation_entry (n1, cs) (n2, ds)))"
    by auto
  also have "\<dots> \<longleftrightarrow> (\<exists>cs ds r. ((a, cs), (b, ds)) \<in> set (pairs (numeric_columns df))
        \<and> corr cs ds = Fin r \<and> 0.3 < \<bar>r\<bar>
        \<and> s = Fin \<bar>r\<bar> \<and> d = (if 0 < r then Positive else Negative) \<and> v = Fin r)"
    unfolding in_correlation_entry by (simp, blast)
  finally show ?thesis .
qed

lemma influence_in_find_connections:
  "CategoricalInfluence a b s m \<in> set (find_connections df) \<longleftrightarrow>
     (\<exists>ls cs r. (a, Object ls) \<in> set df \<and> (b, Numeric cs) \<in> set df
        \<and> variance_ratio (grouped ls cs) = Fin r \<and> 2 < r
        \<and> s = Fin (min (r / 10) 1) \<and> m = map_of (grouped ls cs))"
proof -
  have "CategoricalInfluence a b s m \<notin> set (correlations df)"
    by (auto simp: in_correlations in_correlation_entry)
  then have "CategoricalInfluence a b s m \<in> set (find_connections df) \<longleftrightarrow>
      (\<exists>cat\<in>set (categorical_columns df). \<exists>num\<in>set (numeric_columns df).
        CategoricalInfluence a b s m \<in> set (categorical_entry cat num))"
    by (simp add: set_find_connections in_categorical_influences)
  also have "\<dots> \<longleftrightarrow> (\<exists>n1 ls n2 cs. (n1, Object ls) \<in> set df \<and> (n2, Numeric cs) \<in> set df
        \<and> CategoricalInfluence a b s m \<in> set (categorical_entry (n1, ls) (n2, cs)))"
    by (auto simp: set_categorical_columns set_numeric_columns)
  also have "\<dots> \<longleftrightarrow> (\<exists>ls cs r. (a, Object ls) \<in> set df \<and> (b, Numeric cs) \<in> set df
        \<and> variance_ratio (grouped ls cs) = Fin r \<and> 2 < r
        \<and> s = Fin (min (r / 10) 1) \<and> m = map_of (grouped ls cs))"
    unfolding in_categorical_entry by (simp, blast)
  finally show ?thesis .
qed


lemma distinct_categorical_columns:
  "distinct (map fst df) \<Longrightarrow> distinct (map fst (categorical_columns df))"
proof (induction df)
  case Nil
  then show ?case by (simp add: categorical_columns_def)
next
  case (Cons a df)
  have sub: "fst ` set (categorical_columns df) \<subseteq> fst ` set df"
    by (force simp: set_categorical_columns)
  from Cons have "distinct (map fst (categorical_columns df))" and "fst a \<notin> fst ` set df" by auto
  moreover have "categorical_columns (a # df) =
      (case a of (n, Object ls) \<Rightarrow> [(n, ls)] | _ \<Rightarrow> []) @ categorical_columns df"
    by (auto simp: categorical_columns_def split: column.splits prod.splits)
  ultimately show ?case using sub by (auto split: column.splits prod.splits)
qed

lemma same_column:
  assumes "distinct (map fst df)" and "(a, x) \<in> set df" and "(a, y) \<in> set df"
  shows "x = y"
  using assms by (rule eq_key_imp_eq_value)

lemma pairs_members: "(p, q) \<in> set (pairs xs) \<Longrightarrow> p \<in> set xs \<and> q \<in> set xs"
  by (induction xs) auto

lemma corr_swap_zero_variance:
  assumes "ssqdm (map fst (joint_rows cs ds)) = 0 \<or> ssqdm (map snd (joint_rows cs ds)) = 0"
  shows "corr ds cs = NaN"
  by (rule corr_zero_variance)
    (use assms in \<open>auto simp: joint_rows_swap_fst [of ds cs] joint_rows_swap_snd [of ds cs]\<close>)

lemma constant_joint_fst:
  assumes "\<forall>x\<in>set (dropna cs). x = k"
  shows "ssqdm (map fst (joint_rows cs ds)) = 0"
  by (rule constant_ssqdm [of _ k]) (use assms joint_rows_fst_subset [of cs ds] in auto)

lemma pair_skipped:
  assumes dist: "distinct (map fst df)" and a: "(a, Numeric cs) \<in> set df"
    and b: "(b, Numeric ds) \<in> set df"
    and zero: "ssqdm (map fst (joint_rows cs ds)) = 0 \<or> ssqdm (map snd (joint_rows cs ds)) = 0"
  shows "Correlation a b s d v \<notin> set (find_connections df)"
    and "Correlation b a s d v \<notin> set (find_connections df)"
proof -
  show "Correlation a b s d v \<notin> set (find_connections df)"
  proof
    assume "Correlation a b s d v \<in> set (find_connections df)"
    then obtain cs' ds' r where p: "((a, cs'), (b, ds')) \<in> set (pairs (numeric_columns df))"
      and r: "corr cs' ds' = Fin r"
      unfolding correlation_in_find_connections by blast
    from pairs_members [OF p] have "(a, Numeric cs') \<in> set df" "(b, Numeric ds') \<in> set df"
      by (simp_all add: set_numeric_columns)
    with same_column [OF dist] a b have "cs' = cs" "ds' = ds" by blast+
    with r corr_zero_variance [OF zero] show False by simp
  qed
  show "Correlation b a s d v \<notin> set (find_connections df)"
  proof
    assume "Correlation b a s d v \<in> set (find_connections df)"
    then obtain ds' cs' r where p: "((b, ds'), (a, cs')) \<in> set (pairs (numeric_columns df))"
      and r: "corr ds' cs' = Fin r"
      unfolding correlation_in_find_connections by blast
    from pairs_members [OF p] have "(a, Numeric cs') \<in> set df" "(b, Numeric ds') \<in> set df"
      by (simp_all add: set_numeric_columns)
    with same_column [OF dist] a b have "cs' = cs" "ds' = ds" by blast+
    with r corr_swap_zero_variance [OF zero] show False by simp
  qed
qed

lemma constant_column_skipped:
  assumes dist: "distinct (map fst df)" and a: "(a, Numeric cs) \<in> set df"
    and const: "\<forall>x\<in>set (dropna cs). x = k"
  shows "Correlation a b s d v \<notin> set (find_connections df)"
    and "Correlation b a s d v \<notin> set (find_connections df)"
proof -
  have zero: "ssqdm (map fst (joint_rows cs ds)) = 0 \<or> ssqdm (map snd (joint_rows cs ds)) = 0"
    for ds
    using constant_joint_fst [OF const] by simp
  show "Correlation a b s d v \<notin> set (find_connections df)"
  proof
    assume "Correlation a b s d v \<in> set (find_connections df)"
    then obtain cs' ds' where "((a, cs'), (b, ds')) \<in> set (pairs (numeric_columns df))"
      unfolding correlation_in_find_connections by blast
    from pairs_members [OF this] have "(b, Numeric ds') \<in> set df"
      by (simp add: set_numeric_columns)
    from pair_skipped(1) [OF dist a this zero]
      \<open>Correlation a b s d v \<in> set (find_connections df)\<close> show False by blast
  qed
  show "Correlation b a s d v \<notin> set (find_connections df)"
  proof
    assume "Correlation b a s d v \<in> set (find_connections df)"
    then obtain ds' cs' where "((b, ds'), (a, cs')) \<in> set (pairs (numeric_columns df))"
      unfolding correlation_in_find_connections by blast
    from pairs_members [OF this] have "(b, Numeric ds') \<in> set df"
      by (simp add: set_numeric_columns)
    from pair_skipped(2) [OF dist a this zero]
      \<open>Correlation b a s d v \<in> set (find_connections df)\<close> show False by blast
  qed
qed

lemma find_connections_cases:
  assumes "c \<in> set (find_connections df)"
  shows "(\<exists>a b r d. c = Correlation a b (Fin \<bar>r\<bar>) d (Fin r))
       \<or> (\<exists>a b r m. c = CategoricalInfluence a b (Fin r) m)"
proof (cases c)
  case (Correlation a b s d v)
  with assms have "Correlation a b s d v \<in> set (find_connections df)" by simp
  then obtain r where "s = Fin \<bar>r\<bar>" "v = Fin r"
    unfolding correlation_in_find_connections by blast
  with Correlation show ?thesis by simp
next
  case (CategoricalInfluence a b s m)
  with assms have "CategoricalInfluence a b s m \<in> set (find_connections df)" by simp
  then obtain r where "s = Fin (min (r / 10) 1)"
    unfolding influence_in_find_connections by blast
  with CategoricalInfluence show ?thesis by simp
qed

lemma fin_strength_find_connections:
  "c \<in> set (find_connections df) \<Longrightarrow> fin_strength c"
  using find_connections_cases [of c df] by (auto simp: fin_strength_def)


lemma series_skip_nan:
  "series_max fs = series_max (filter (\<lambda>f. f \<noteq> NaN) fs)"
  "series_min fs = series_min (filter (\<lambda>f. f \<noteq> NaN) fs)"
proof -
  have "finite_vals (filter (\<lambda>f. f \<noteq> NaN) fs) = finite_vals fs"
    by (induction fs) (auto simp: finite_vals_def)
  then show "series_max fs = series_max (filter (\<lambda>f. f \<noteq> NaN) fs)"
    "series_min fs = series_min (filter (\<lambda>f. f \<noteq> NaN) fs)"
    by (simp_all add: series_max_def series_min_def)
qed

lemma nonempty_groups_ge:
  "card (std_groups ls cs) \<le> card {l \<in> set (group_labels ls). group_values ls cs l \<noteq> []}"
  by (rule card_mono) (auto simp: std_groups_def)

lemma influence_unique_columns:
  assumes dist: "distinct (map fst df)" and a: "(a, Object ls) \<in> set df"
    and b: "(b, Numeric cs) \<in> set df"
    and mem: "CategoricalInfluence a b s m \<in> set (find_connections df)"
  shows "\<exists>r. variance_ratio (grouped ls cs) = Fin r \<and> 2 < r"
proof -
  from mem obtain ls' cs' r where "(a, Object ls') \<in> set df" "(b, Numeric cs') \<in> set df"
    and r: "variance_ratio (grouped ls' cs') = Fin r" "2 < r"
    unfolding influence_in_find_connections by blast
  with same_column [OF dist] a b have "ls' = ls" "cs' = cs" by blast+
  with r show ?thesis by blast
qed

section \<open>Examples evaluated\<close>

lemma sqrt_9: "sqrt 9 = 3"
  using real_sqrt_abs [of 3] by simp

lemma labels_ex: "group_labels ex_labels = [''u'', ''v'']"
  by (simp add: group_labels_def)

lemma values_ex:
  "group_values ex_labels ex_x ''u'' = [0, 1, 2]"
  "group_values ex_labels ex_x ''v'' = [0, 3, 6]"
  by (simp_all add: group_values_def)

lemma std_ex: "std [0, 1, 2] = Fin 1" "std [0, 3, 6] = Fin 3"
  by (simp_all add: std_def ssqdm_def rmean_def sqrt_9)

lemma mean_ex: "mean [0, 1, 2] = Fin 1" "mean [0, 3, 6] = Fin 3"
  by (simp_all add: mean_def rmean_def)

lemma grouped_ex: "grouped ex_labels ex_x = ex_stats"
  by (simp add: grouped_def labels_ex values_ex std_ex mean_ex)

lemma ratio_ex: "variance_ratio ex_stats = Fin (3 / (1 + 1 / 10 ^ 10))"
  by (simp add: variance_ratio_def series_max_def series_min_def finite_vals_def)


lemma influence_example:
  "CategoricalInfluence ''g'' ''x'' (Fin (3000000000 / 10000000001)) (map_of ex_stats)
     \<in> set (find_connections ex_table)"
proof -
  have "(''g'', Object ex_labels) \<in> set ex_table \<and> (''x'', Numeric ex_x) \<in> set ex_table
      \<and> variance_ratio (grouped ex_labels ex_x) = Fin (3 / (1 + 1 / 10 ^ 10))
      \<and> 2 < (3 / (1 + 1 / 10 ^ 10) :: real)
      \<and> Fin (3000000000 / 10000000001) = Fin (min (3 / (1 + 1 / 10 ^ 10) / 10) 1)
      \<and> map_of ex_stats = map_of (grouped ex_labels ex_x)"
    by (simp add: grouped_ex ratio_ex)
  then show ?thesis unfolding influence_in_find_connections by blast
qed

lemma few_ex:
  "{l \<in> set (group_labels ex_labels1). 2 \<le> length (group_values ex_labels1 ex_x1 l)} = {''u''}"
  by (auto simp: group_labels_def group_values_def)

section \<open>Correlation entries\<close>



section \<open>Categorical-influence entries\<close>



text \<open>
  Claim C5. A categorical-influence entry is appended for a pair only if at least two
  groups hold at least one present numeric value each; a pair with fewer such groups
  appends nothing.
\<close>

theorem influence_needs_two_groups:
  "(categorical_entry (a, ls) (b, cs) \<noteq> [] \<longrightarrow>
      2 \<le> card {l \<in> set (group_labels ls). group_values ls cs l \<noteq> []})
   \<and> (distinct (map fst df) \<and> (a, Object ls) \<in> set df \<and> (b, Numeric cs) \<in> set df
        \<and> CategoricalInfluence a b s m \<in> set (find_connections df) \<longrightarrow>
      2 \<le> card {l \<in> set (group_labels ls). group_values ls cs l \<noteq> []})"
proof -
  have key: "2 \<le> card {l \<in> set (group_labels ls). group_values ls cs l \<noteq> []}"
    if "variance_ratio (grouped ls cs) = Fin r" "2 < r" for r
    using ratio_gt2_two_groups [OF that] nonempty_groups_ge [of ls cs] by linarith
  have "2 \<le> card {l \<in> set (group_labels ls). group_values ls cs l \<noteq> []}"
    if "categorical_entry (a, ls) (b, cs) \<noteq> []"
  proof -
    from that obtain c where "c \<in> set (categorical_entry (a, ls) (b, cs))"
      by (cases "categorical_entry (a, ls) (b, cs)") auto
    then show ?thesis unfolding in_categorical_entry using key by blast
  qed
  moreover have "2 \<le> card {l \<in> set (group_labels ls). group_values ls cs l \<noteq> []}"
    if "distinct (map fst df)" "(a, Object ls) \<in> set df" "(b, Numeric cs) \<in> set df"
      "CategoricalInfluence a b s m \<in> set (find_connections df)"
    using influence_unique_columns [OF that] key by blast
  ultimately show ?thesis by blast
qed

theorem influence_needs_two_groups_witness:
  "categorical_entry (''g'', ex_labels) (''x'', ex_x) \<noteq> []
   \<and> distinct (map fst ex_table)
   \<and> CategoricalInfluence ''g'' ''x'' (Fin (3000000000 / 10000000001)) (map_of ex_stats)
       \<in> set (find_connections ex_table)
   \<and> 2 \<le> card {l \<in> set (group_labels ex_labels). group_values ex_labels ex_x l \<noteq> []}"
proof -
  have "categorical_entry (''g'', ex_labels) (''x'', ex_x) \<noteq> []"
    by (simp add: categorical_entry_eq grouped_ex ratio_ex)
  moreover have "distinct (map fst ex_table)" by simp
  moreover have "(''g'', Object ex_labels) \<in> set ex_table \<and> (''x'', Numeric ex_x) \<in> set ex_table"
    by simp
  ultimately show ?thesis
    using influence_example
      influence_needs_two_groups [of "''g''" ex_labels "''x''" ex_x ex_table
        "Fin (3000000000 / 10000000001)" "map_of ex_stats"]
    by blast
qed

text \<open>
  Claim C10. A group with exactly one present numeric value has the standard deviation NaN;
  the maximum and the minimum of the standard deviations skip NaN. So when at most one
  group has two or more present values, the ratio is NaN or at most 1, and the pair gives
  no categorical-influence entry.
\<close>

theorem singleton_groups_no_influence:
  "(length (group_values ls cs l) = 1 \<longrightarrow> std (group_values ls cs l) = NaN)
   \<and> series_max fs = series_max (filter (\<lambda>f. f \<noteq> NaN) fs)
   \<and> series_min fs = series_min (filter (\<lambda>f. f \<noteq> NaN) fs)
   \<and> (card {l \<in> set (group_labels ls). 2 \<le> length (group_values ls cs l)} \<le> 1 \<longrightarrow>
        (variance_ratio (grouped ls cs) = NaN
           \<or> (\<exists>r. variance_ratio (grouped ls cs) = Fin r \<and> r \<le> 1))
        \<and> categorical_entry (a, ls) (b, cs) = []
        \<and> (distinct (map fst df) \<and> (a, Object ls) \<in> set df \<and> (b, Numeric cs) \<in> set df \<longrightarrow>
             CategoricalInfluence a b s m \<notin> set (find_connections df)))"
proof -
  have 1: "length (group_values ls cs l) = 1 \<longrightarrow> std (group_values ls cs l) = NaN"
    by (simp add: std_def)
  have 2: "variance_ratio (grouped ls cs) = NaN
           \<or> (\<exists>r. variance_ratio (grouped ls cs) = Fin r \<and> r \<le> 1)"
    if "card {l \<in> set (group_labels ls). 2 \<le> length (group_values ls cs l)} \<le> 1"
    using ratio_few_groups [of ls cs] that by (simp add: std_groups_def)
  have 3: "categorical_entry (a, ls) (b, cs) = []"
    if "card {l \<in> set (group_labels ls). 2 \<le> length (group_values ls cs l)} \<le> 1"
    using 2 [OF that] by (auto simp: categorical_entry_eq)
  have 4: "CategoricalInfluence a b s m \<notin> set (find_connections df)"
    if "card {l \<in> set (group_labels ls). 2 \<le> length (group_values ls cs l)} \<le> 1"
      and "distinct (map fst df)" "(a, Object ls) \<in> set df" "(b, Numeric cs) \<in> set df"
  proof
    assume "CategoricalInfluence a b s m \<in> set (find_connections df)"
    from influence_unique_columns [OF that(2-4) this] 2 [OF that(1)] show False by auto
  qed
  from 1 2 3 4 series_skip_nan [of fs] show ?thesis by blast
qed

theorem singleton_groups_no_influence_witness:
  "card {l \<in> set (group_labels ex_labels1). 2 \<le> length (group_values ex_labels1 ex_x1 l)} \<le> 1
   \<and> length (group_values ex_labels1 ex_x1 ''v'') = 1
   \<and> std (group_values ex_labels1 ex_x1 ''v'') = NaN
   \<and> categorical_entry (''g'', ex_labels1) (''x'', ex_x1) = []
   \<and> distinct (map fst ex_table1)
   \<and> CategoricalInfluence ''g'' ''x'' (Fin 1) Map.empty \<notin> set (find_connections ex_table1)"
proof -
  have c: "card {l \<in> set (group_labels ex_labels1).
      2 \<le> length (group_values ex_labels1 ex_x1 l)} \<le> 1"
    by (simp add: few_ex)
  have l: "length (group_values ex_labels1 ex_x1 ''v'') = 1"
    by (simp add: group_values_def)
  have d: "distinct (map fst ex_table1)" by simp
  have m: "(''g'', Object ex_labels1) \<in> set ex_table1 \<and> (''x'', Numeric ex_x1) \<in> set ex_table1"
    by simp
  from c l d m show ?thesis
    using singleton_groups_no_influence [of ex_labels1 ex_x1 "''v''" "[]" "''g''" "''x''"
        ex_table1 "Fin 1" Map.empty]
    by blast
qed

section \<open>Ranking of the result\<close>

lemma sqrt_more: "sqrt 4 = 2" "sqrt 36 = 6" "sqrt 676 = 26" "sqrt 2704 = 52"
  using real_sqrt_abs [of 2] real_sqrt_abs [of 6] real_sqrt_abs [of 26] real_sqrt_abs [of 52]
  by simp_all

lemma corr_ranked:
  "corr ex_x ex_y = Fin 1" "corr ex_x ex_z = Fin 1" "corr ex_y ex_z = Fin 1"
  by (simp_all add: corr_def joint_rows_def ssqdm_def covxy_def rmean_def sqrt_more)

lemma correlations_ranked:
  "correlations ranked_table =
     [Correlation ''x'' ''y'' (Fin 1) Positive (Fin 1),
      Correlation ''x'' ''z'' (Fin 1) Positive (Fin 1),
      Correlation ''y'' ''z'' (Fin 1) Positive (Fin 1)]"
  by (simp add: correlations_def numeric_columns_def correlation_entry_eq corr_ranked)

lemma grouped_ranked:
  "grouped ex_labels ex_y = ex_stats_y" "grouped ex_labels ex_z = ex_stats_z"
  by (simp_all add: grouped_def labels_ex group_values_def std_def mean_def ssqdm_def rmean_def
      sqrt_more sqrt_9)

lemma ratio_ranked:
  "variance_ratio ex_stats_y = Fin (6 / (2 + 1 / 10 ^ 10))"
  "variance_ratio ex_stats_z = Fin (3 / (1 + 1 / 10 ^ 10))"
  by (simp_all add: variance_ratio_def series_max_def series_min_def finite_vals_def)

lemma influences_ranked:
  "categorical_influences ranked_table =
     [CategoricalInfluence ''g'' ''x'' (Fin (3000000000 / 10000000001)) (map_of ex_stats),
      CategoricalInfluence ''g'' ''y'' (Fin (6000000000 / 20000000001)) (map_of ex_stats_y),
      CategoricalInfluence ''g'' ''z'' (Fin (3000000000 / 10000000001)) (map_of ex_stats_z)]"
  by (simp add: categorical_influences_def numeric_columns_def categorical_columns_def
      categorical_entry_eq grouped_ex grouped_ranked ratio_ex ratio_ranked)

lemma ranked_table_result:
  "find_connections ranked_table =
     [Correlation ''x'' ''y'' (Fin 1) Positive (Fin 1),
      Correlation ''x'' ''z'' (Fin 1) Positive (Fin 1),
      Correlation ''y'' ''z'' (Fin 1) Positive (Fin 1),
      CategoricalInfluence ''g'' ''y'' (Fin (6000000000 / 20000000001)) (map_of ex_stats_y),
      CategoricalInfluence ''g'' ''x'' (Fin (3000000000 / 10000000001)) (map_of ex_stats),
      CategoricalInfluence ''g'' ''z'' (Fin (3000000000 / 10000000001)) (map_of ex_stats_z)]"
  by (simp add: find_connections_def connections_def sorted_desc_def
      correlations_ranked influences_ranked)

text \<open>
  Claim C2. The list that \<^verbatim>\<open>find_connections\<close> returns is in non-increasing order of
  strength: every entry's strength is at least that of each later entry, in particular of
  the next one. Entries of equal strength stand in the order of their discovery, which is
  all correlation entries in the order of the pairs of numeric columns, followed by the
  categorical-influence entries in the order of the categorical column and then the
  numeric column. The result is a rearrangement of the discovered entries.
\<close>

theorem find_connections_ranked:
  "sorted_wrt (\<lambda>c1 c2. fl_ge (strength c1) (strength c2)) (find_connections df)
   \<and> (\<forall>i. Suc i < length (find_connections df) \<longrightarrow>
         fl_ge (strength (find_connections df ! i)) (strength (find_connections df ! Suc i)))
   \<and> (\<forall>k. filter (\<lambda>c. strength c = k) (find_connections df)
           = filter (\<lambda>c. strength c = k) (correlations df @ categorical_influences df))
   \<and> mset (find_connections df) = mset (correlations df @ categorical_influences df)"
proof -
  have "\<forall>c\<in>set (connections df). fin_strength c"
    using fin_strength_find_connections [of _ df]
    by (simp add: find_connections_def set_sorted_desc)
  then have srt: "sorted_wrt (\<lambda>c1 c2. fl_ge (strength c1) (strength c2)) (find_connections df)"
    unfolding find_connections_def by (rule sorted_sorted_desc)
  have adj: "fl_ge (strength (find_connections df ! i)) (strength (find_connections df ! Suc i))"
    if "Suc i < length (find_connections df)" for i
    using sorted_wrt_nth_less [OF srt, of i "Suc i"] that by simp
  have stable: "filter (\<lambda>c. strength c = k) (find_connections df)
           = filter (\<lambda>c. strength c = k) (correlations df @ categorical_influences df)" for k
    unfolding find_connections_def connections_def by (rule filter_sorted_desc)
  have perm: "mset (find_connections df) = mset (correlations df @ categorical_influences df)"
    unfolding find_connections_def connections_def by (rule mset_sorted_desc)
  from srt adj stable perm show ?thesis by blast
qed

theorem find_connections_ranked_witness:
  "Suc 2 < length (find_connections ranked_table)
   \<and> fl_ge (strength (find_connections ranked_table ! 2))
            (strength (find_connections ranked_table ! Suc 2))
   \<and> fl_ge (strength (find_connections ranked_table ! 3))
            (strength (find_connections ranked_table ! Suc 3))
   \<and> filter (\<lambda>c. strength c = Fin (3000000000 / 10000000001)) (find_connections ranked_table)
       = [CategoricalInfluence ''g'' ''x'' (Fin (3000000000 / 10000000001)) (map_of ex_stats),
          CategoricalInfluence ''g'' ''z'' (Fin (3000000000 / 10000000001)) (map_of ex_stats_z)]
   \<and> find_connections ranked_table =
     [Correlation ''x'' ''y'' (Fin 1) Positive (Fin 1),
      Correlation ''x'' ''z'' (Fin 1) Positive (Fin 1),
      Correlation ''y'' ''z'' (Fin 1) Positive (Fin 1),
      CategoricalInfluence ''g'' ''y'' (Fin (6000000000 / 20000000001)) (map_of ex_stats_y),
      CategoricalInfluence ''g'' ''x'' (Fin (3000000000 / 10000000001)) (map_of ex_stats),
      CategoricalInfluence ''g'' ''z'' (Fin (3000000000 / 10000000001)) (map_of ex_stats_z)]"
proof -
  have len: "Suc 2 < length (find_connections ranked_table)"
    and len': "Suc 3 < length (find_connections ranked_table)"
    by (simp_all add: ranked_table_result)
  have flt: "filter (\<lambda>c. strength c = Fin (3000000000 / 10000000001))
        (correlations ranked_table @ categorical_influences ranked_table)
       = [CategoricalInfluence ''g'' ''x'' (Fin (3000000000 / 10000000001)) (map_of ex_stats),
          CategoricalInfluence ''g'' ''z'' (Fin (3000000000 / 10000000001)) (map_of ex_stats_z)]"
    by (simp add: correlations_ranked influences_ranked)
  have ranked: "(\<forall>i. Suc i < length (find_connections ranked_table) \<longrightarrow>
         fl_ge (strength (find_connections ranked_table ! i))
               (strength (find_connections ranked_table ! Suc i)))
     \<and> (\<forall>k. filter (\<lambda>c. strength c = k) (find_connections ranked_table)
           = filter (\<lambda>c. strength c = k)
               (correlations ranked_table @ categorical_influences ranked_table))"
    using find_connections_ranked [of ranked_table] by blast
  from ranked len have a2: "fl_ge (strength (find_connections ranked_table ! 2))
            (strength (find_connections ranked_table ! Suc 2))" by blast
  from ranked len' have a3: "fl_ge (strength (find_connections ranked_table ! 3))
            (strength (find_connections ranked_table ! Suc 3))" by blast
  from ranked have "filter (\<lambda>c. strength c = Fin (3000000000 / 10000000001))
        (find_connections ranked_table)
      = filter (\<lambda>c. strength c = Fin (3000000000 / 10000000001))
        (correlations ranked_table @ categorical_influences ranked_table)" by blast
  from this flt have st: "filter (\<lambda>c. strength c = Fin (3000000000 / 10000000001))
        (find_connections ranked_table)
       = [CategoricalInfluence ''g'' ''x'' (Fin (3000000000 / 10000000001)) (map_of ex_stats),
          CategoricalInfluence ''g'' ''z'' (Fin (3000000000 / 10000000001)) (map_of ex_stats_z)]"
    by (rule trans)
  from len a2 a3 st ranked_table_result show ?thesis by blast
qed

section \<open>Degenerate pairs of numeric columns\<close>

lemma correlations_table3: "correlations ex_table3 = []"
  by (simp add: correlations_def numeric_columns_def correlation_entry_eq
      corr_def joint_rows_def ssqdm_def covxy_def rmean_def)

lemma grouped_table3:
  "grouped ex_labels3 ex_x3 = ex_stats3"
  "grouped ex_labels3 ex_k3 =
     [(''u'', \<lparr>grp_mean = Fin 5, grp_std = Fin 0, grp_count = 3\<rparr>),
      (''v'', \<lparr>grp_mean = Fin 5, grp_std = Fin 0, grp_count = 3\<rparr>),
      (''w'', \<lparr>grp_mean = Fin 5, grp_std = NaN, grp_count = 1\<rparr>)]"
  by (simp_all add: grouped_def group_labels_def group_values_def std_def mean_def ssqdm_def
      rmean_def sqrt_9)

lemma ratio_table3:
  "variance_ratio ex_stats3 = Fin (3 / (1 + 1 / 10 ^ 10))"
  "variance_ratio
     [(''u'', \<lparr>grp_mean = Fin 5, grp_std = Fin 0, grp_count = 3\<rparr>),
      (''v'', \<lparr>grp_mean = Fin 5, grp_std = Fin 0, grp_count = 3\<rparr>),
      (''w'', \<lparr>grp_mean = Fin 5, grp_std = NaN, grp_count = 1\<rparr>)] = Fin 0"
  by (simp_all add: variance_ratio_def series_max_def series_min_def finite_vals_def)

lemma entries_table3:
  "categorical_entry (''g'', ex_labels3) (''x'', ex_x3) =
     [CategoricalInfluence ''g'' ''x'' (Fin (3000000000 / 10000000001)) (map_of ex_stats3)]"
  "categorical_entry (''g'', ex_labels3) (''k'', ex_k3) = []"
  by (simp_all only: categorical_entry_eq grouped_table3 ratio_table3) simp_all

lemma table3_result:
  "find_connections ex_table3 =
     [CategoricalInfluence ''g'' ''x'' (Fin (3000000000 / 10000000001)) (map_of ex_stats3)]"
proof -
  have "numeric_columns ex_table3 = [(''x'', ex_x3), (''k'', ex_k3)]"
    and "categorical_columns ex_table3 = [(''g'', ex_labels3)]"
    by (simp_all add: numeric_columns_def categorical_columns_def)
  then have "categorical_influences ex_table3 =
      categorical_entry (''g'', ex_labels3) (''x'', ex_x3)
      @ categorical_entry (''g'', ex_labels3) (''k'', ex_k3)"
    by (simp add: categorical_influences_def)
  then show ?thesis
    by (simp only: find_connections_def connections_def correlations_table3 entries_table3)
      (simp add: sorted_desc_def)
qed

text \<open>
  Claim C3, amended. In a table with unique column names, a pair of numeric columns of
  which one has zero variance over the rows where both are present gives no correlation
  entry, in either order of the names; a numeric column whose present values are all equal
  is in no correlation entry. No entry of the result has the strength NaN and no
  correlation entry has the value NaN. (The group statistics of a categorical-influence
  entry are not covered: see the example after the theorem.)
\<close>

theorem zero_variance_pair_skipped:
  assumes "distinct (map fst df)" and "(a, Numeric cs) \<in> set df"
  shows "(\<forall>b ds. (b, Numeric ds) \<in> set df
            \<and> (ssqdm (map fst (joint_rows cs ds)) = 0 \<or> ssqdm (map snd (joint_rows cs ds)) = 0)
          \<longrightarrow> (\<forall>s d v. Correlation a b s d v \<notin> set (find_connections df)
                       \<and> Correlation b a s d v \<notin> set (find_connections df)))
       \<and> ((\<exists>k. \<forall>x\<in>set (dropna cs). x = k) \<longrightarrow>
            (\<forall>b s d v. Correlation a b s d v \<notin> set (find_connections df)
                       \<and> Correlation b a s d v \<notin> set (find_connections df)))
       \<and> (\<forall>c\<in>set (find_connections df).
            strength c \<noteq> NaN
            \<and> (\<forall>n1 n2 s d v. c = Correlation n1 n2 s d v \<longrightarrow> v \<noteq> NaN))"
proof -
  have 1: "Correlation a b s d v \<notin> set (find_connections df)
         \<and> Correlation b a s d v \<notin> set (find_connections df)"
    if "(b, Numeric ds) \<in> set df"
      "ssqdm (map fst (joint_rows cs ds)) = 0 \<or> ssqdm (map snd (joint_rows cs ds)) = 0"
    for b ds s d v
    using pair_skipped [OF assms that] by simp
  have 2: "Correlation a b s d v \<notin> set (find_connections df)
         \<and> Correlation b a s d v \<notin> set (find_connections df)"
    if "\<forall>x\<in>set (dropna cs). x = k" for k b s d v
    using constant_column_skipped [OF assms that] by simp
  have 3: "strength c \<noteq> NaN \<and> (\<forall>n1 n2 s d v. c = Correlation n1 n2 s d v \<longrightarrow> v \<noteq> NaN)"
    if "c \<in> set (find_connections df)" for c
    using find_connections_cases [OF that] by auto
  from 1 2 3 show ?thesis by blast
qed

theorem zero_variance_pair_skipped_witness:
  "distinct (map fst ex_table3) \<and> (''k'', Numeric ex_k3) \<in> set ex_table3
   \<and> (''x'', Numeric ex_x3) \<in> set ex_table3
   \<and> set (dropna ex_k3) = {5}
   \<and> ssqdm (map fst (joint_rows ex_k3 ex_x3)) = 0
   \<and> (\<forall>b s d v. Correlation ''k'' b s d v \<notin> set (find_connections ex_table3)
                \<and> Correlation b ''k'' s d v \<notin> set (find_connections ex_table3))
   \<and> find_connections ex_table3 ! 0 \<in> set (find_connections ex_table3)
   \<and> strength (find_connections ex_table3 ! 0) \<noteq> NaN"
proof -
  have d: "distinct (map fst ex_table3)" by simp
  have m: "(''k'', Numeric ex_k3) \<in> set ex_table3" "(''x'', Numeric ex_x3) \<in> set ex_table3"
    by simp_all
  have c: "set (dropna ex_k3) = {5}" by (simp add: dropna_def)
  have z: "ssqdm (map fst (joint_rows ex_k3 ex_x3)) = 0"
    by (simp add: joint_rows_def ssqdm_def rmean_def)
  have i: "find_connections ex_table3 ! 0 \<in> set (find_connections ex_table3)"
    by (simp add: table3_result)
  from c have "\<exists>k. \<forall>x\<in>set (dropna ex_k3). x = k" by simp
  with d m c z i zero_variance_pair_skipped [OF d m(1)] show ?thesis by blast
qed

text \<open>
  The statement of C3 that no NaN occurs anywhere in an entry fails on the group
  statistics: a label with a single present value has the standard deviation NaN, and
  \<^verbatim>\<open>grouped.to_dict()\<close> puts it into the entry. Here the label \<open>w\<close> has the single
  value 7, and the constant column \<open>k\<close> is a zero-variance partner of \<open>x\<close>.
\<close>

theorem nan_in_emitted_connection:
  "find_connections ex_table3 =
     [CategoricalInfluence ''g'' ''x'' (Fin (3000000000 / 10000000001)) (map_of ex_stats3)]
   \<and> details (find_connections ex_table3 ! 0) ''w''
       = Some \<lparr>grp_mean = Fin 7, grp_std = NaN, grp_count = 1\<rparr>"
  by (simp add: table3_result)

end
